theory Spec2Isabelle
  imports Complex_Main
begin

section \<open>Python values\<close>

text \<open>
  The generator is a linear pipeline around three external services (speech synthesis,
  a stock-footage provider, a video library). Durations are floating-point numbers in
  the source; they are modelled in exact arithmetic as \<^typ>\<open>real\<close>. Pixel coordinates and
  font sizes are Python integers, modelled as \<^typ>\<open>int\<close>. Every exception that the source
  lets escape is a value of \<open>error\<close>, and a function that can raise returns
  \<open>error + 'a\<close> with \<open>Inl\<close> for the exception.
\<close>

datatype error =
    KeyError | IndexError | ValueError | ZeroDivisionError | OSError
  | SynthesisError | EncodeError

text \<open>\<open>int(x)\<close> on a float truncates towards zero.\<close>

definition py_int :: "real \<Rightarrow> int" where
  "py_int x = (if 0 \<le> x then \<lfloor>x\<rfloor> else \<lceil>x\<rceil>)"

text \<open>\<open>str(i)\<close> for a non-negative integer, as the f-string \<open>f"clip_{i}.mp4"\<close> prints it.\<close>

definition digit_char :: "nat \<Rightarrow> char" where
  "digit_char n = char_of (48 + n)"

function py_str :: "nat \<Rightarrow> string" where
  "py_str n = (if n < 10 then [digit_char n] else py_str (n div 10) @ [digit_char (n mod 10)])"
  by pat_completeness auto
termination
  by (relation "measure id") auto

declare py_str.simps [simp del]

text \<open>\<open>s.split(sep)\<close> for a one-character separator: \<open>n\<close> separators give \<open>n + 1\<close> pieces.\<close>

fun split_on :: "char \<Rightarrow> string \<Rightarrow> string list" where
  "split_on sep [] = [[]]"
| "split_on sep (c # cs) =
     (if c = sep then [] # split_on sep cs
      else (c # hd (split_on sep cs)) # tl (split_on sep cs))"

definition newline :: char where
  "newline = CHR 0x0A"

text \<open>
  \<open>str.isspace\<close> on the code points a \<^typ>\<open>char\<close> holds (0 to 255), and \<open>s.strip()\<close>.
\<close>

definition isspace :: "char \<Rightarrow> bool" where
  "isspace c = (let n = (of_char c :: nat) in
     (9 \<le> n \<and> n \<le> 13) \<or> (28 \<le> n \<and> n \<le> 32) \<or> n = 133 \<or> n = 160)"

definition strip :: "string \<Rightarrow> string" where
  "strip s = rev (dropWhile isspace (rev (dropWhile isspace s)))"

text \<open>
  \<open>s.title()\<close> on ASCII text: a cased character that follows an uncased one is put in
  upper case, a cased character that follows a cased one in lower case. Characters
  outside the ASCII letters are treated as uncased; the texts the program passes to it
  (the eight queries) are ASCII.
\<close>

definition islower_ascii :: "char \<Rightarrow> bool" where
  "islower_ascii c = (97 \<le> (of_char c :: nat) \<and> (of_char c :: nat) \<le> 122)"

definition isupper_ascii :: "char \<Rightarrow> bool" where
  "isupper_ascii c = (65 \<le> (of_char c :: nat) \<and> (of_char c :: nat) \<le> 90)"

definition upper_ascii :: "char \<Rightarrow> char" where
  "upper_ascii c = char_of ((of_char c :: nat) - 32)"

definition lower_ascii :: "char \<Rightarrow> char" where
  "lower_ascii c = char_of ((of_char c :: nat) + 32)"

fun title_from :: "bool \<Rightarrow> string \<Rightarrow> string" where
  "title_from previous_is_cased [] = []"
| "title_from previous_is_cased (c # cs) =
     (if islower_ascii c then
        (if previous_is_cased then c else upper_ascii c) # title_from True cs
      else if isupper_ascii c then
        (if previous_is_cased then lower_ascii c else c) # title_from True cs
      else c # title_from False cs)"

definition title :: "string \<Rightarrow> string" where
  "title s = title_from False s"

text \<open>Truthiness of \<open>self.pexels_api_key\<close>: \<open>None\<close> and the empty string are false.\<close>

definition truthy :: "string option \<Rightarrow> bool" where
  "truthy k = (case k of None \<Rightarrow> False | Some s \<Rightarrow> s \<noteq> [])"

section \<open>Data model\<close>

text \<open>
  The provider's JSON: a video entry may or may not carry the key \<open>video_files\<close>; a file
  variant is read with \<open>v.get("quality")\<close> (absent gives \<open>None\<close>) and \<open>v["link"]\<close> (absent
  raises \<open>KeyError\<close>).
\<close>

datatype variant = Variant (quality: "string option") (link: "string option")

datatype video_entry = VideoEntry (video_files: "variant list option")

text \<open>
  What \<open>response.json()\<close> gives for a search: not JSON at all (it raises), JSON that is
  not an object (\<open>data.get\<close> raises), or an object whose key \<open>videos\<close> may be absent.
\<close>

datatype search_body = NotJson | NotAnObject | Object "video_entry list option"

text \<open>
  An HTTP exchange: \<open>requests.get\<close> raises (\<open>NoReply\<close>), or there is a response with a
  status code and a payload.
\<close>

datatype 'a reply = NoReply | Reply nat 'a

text \<open>\<open>response.raise_for_status()\<close> raises for the status codes 400 to 599.\<close>

definition raise_for_status :: "nat \<Rightarrow> bool" where
  "raise_for_status code = (400 \<le> code \<and> code < 600)"

datatype font = TrueType string int | DefaultFont

text \<open>
  A rendered slide is the image that \<open>create_text_slide\<close> draws: the canvas, its background,
  and the text drawing commands \<open>draw.text((x, y), line, fill, font)\<close> in the order issued.
\<close>

record slide =
  canvas :: "int \<times> int"
  background :: "nat \<times> nat \<times> nat"
  ink :: "nat \<times> nat \<times> nat"
  typeface :: font
  texts :: "((int \<times> int) \<times> string) list"

text \<open>
  The clips of the video library, as the calls that build them: \<open>ImageClip(img, duration)\<close>,
  \<open>VideoFileClip(path)\<close> with the duration read from the file, \<open>clip.loop(duration=d)\<close> and
  \<open>clip.subclip(t_start, t_end)\<close>. The library gives a looped clip the duration \<open>d\<close> and a
  subclip (for \<open>0 \<le> t_start \<le> t_end\<close>, as the composer calls it) the duration
  \<open>t_end - t_start\<close>.
\<close>

datatype clip =
    ImageClip slide real
  | VideoFileClip string real
  | Loop clip real
  | Subclip clip real real

fun clip_duration :: "clip \<Rightarrow> real" where
  "clip_duration (ImageClip img d) = d"
| "clip_duration (VideoFileClip path d) = d"
| "clip_duration (Loop c d) = d"
| "clip_duration (Subclip c t_start t_end) = t_end - t_start"

text \<open>
  \<open>concatenate_videoclips(clips, method="compose").set_audio(audio)\<close>: the clips in order,
  and the audio track (its file and duration).
\<close>

record video =
  clips :: "clip list"
  audio :: "string \<times> real"

definition video_duration :: "video \<Rightarrow> real" where
  "video_duration v = sum_list (map clip_duration (clips v))"

text \<open>The instance state of \<open>BeanFlowVideoGenerator\<close>.\<close>

record generator =
  output_dir :: string
  pexels_api_key :: "string option"

text \<open>
  Everything outside the program that its calls depend on: the outcome of each external
  call and the library routines \<open>textwrap.fill\<close> and \<open>ImageDraw.textbbox\<close>.
  \<^item> \<open>gtts_save text path\<close>: whether speech synthesis and saving succeed;
  \<^item> \<open>audio_file path\<close>: the duration \<open>AudioFileClip(path).duration\<close>, \<open>None\<close> when it raises;
  \<^item> \<open>search_get key query per_page\<close>: the search request;
  \<^item> \<open>download_get url\<close>: the download request, its payload the streamed chunks;
  \<^item> \<open>write_file path chunks\<close>: whether opening the file and streaming the chunks into it
    succeed;
  \<^item> \<open>video_file path\<close>: the duration \<open>VideoFileClip(path).duration\<close>, \<open>None\<close> when it raises;
  \<^item> \<open>truetype path size\<close>: whether \<open>ImageFont.truetype(path, size)\<close> loads;
  \<^item> \<open>write_videofile v path\<close>: whether encoding and writing the output succeed.
\<close>

record world =
  gtts_save :: "string \<Rightarrow> string \<Rightarrow> bool"
  audio_file :: "string \<Rightarrow> real option"
  search_get :: "string \<Rightarrow> string \<Rightarrow> nat \<Rightarrow> search_body reply"
  download_get :: "string \<Rightarrow> string list reply"
  write_file :: "string \<Rightarrow> string list \<Rightarrow> bool"
  video_file :: "string \<Rightarrow> real option"
  truetype :: "string \<Rightarrow> int \<Rightarrow> bool"
  textwrap_fill :: "string \<Rightarrow> int \<Rightarrow> string"
  textbbox :: "font \<Rightarrow> string \<Rightarrow> int \<times> int \<times> int \<times> int"
  write_videofile :: "video \<Rightarrow> string \<Rightarrow> bool"

section \<open>Stock footage client\<close>

definition set_pexels_api_key :: "generator \<Rightarrow> string \<Rightarrow> generator" where
  "set_pexels_api_key g api_key = g\<lparr>pexels_api_key := Some api_key\<rparr>"

text \<open>
  \<open>search_pexels_videos\<close>: the empty list without a key; otherwise the request, whose
  every exception (no reply, an error status, a body that is not a JSON object) is caught
  and answered by the empty list; otherwise \<open>data.get("videos", [])\<close>.
\<close>

definition search_pexels_videos :: "generator \<Rightarrow> world \<Rightarrow> string \<Rightarrow> nat \<Rightarrow> video_entry list" where
  "search_pexels_videos g w query per_page =
     (case pexels_api_key g of
        None \<Rightarrow> []
      | Some key \<Rightarrow>
          if key = [] then []
          else (case search_get w key query per_page of
                  NoReply \<Rightarrow> []
                | Reply code body \<Rightarrow>
                    if raise_for_status code then []
                    else (case body of
                            NotJson \<Rightarrow> []
                          | NotAnObject \<Rightarrow> []
                          | Object None \<Rightarrow> []
                          | Object (Some videos) \<Rightarrow> videos)))"

text \<open>
  \<open>download_video\<close>: the file path \<open>output_dir / filename\<close> when the request and the
  writing succeed, \<open>None\<close> when anything in the \<open>try\<close> block raises.
\<close>

definition download_video :: "generator \<Rightarrow> world \<Rightarrow> string \<Rightarrow> string \<Rightarrow> string option" where
  "download_video g w url filename =
     (case download_get w url of
        NoReply \<Rightarrow> None
      | Reply code chunks \<Rightarrow>
          if raise_for_status code then None
          else (let filepath = output_dir g @ ''/'' @ filename in
                if write_file w filepath chunks then Some filepath else None))"

section \<open>Slide renderer\<close>

definition helvetica :: string where
  "helvetica = ''/System/Library/Fonts/Helvetica.ttc''"

definition arial :: string where
  "arial = ''/System/Library/Fonts/Supplemental/Arial.ttf''"

text \<open>
  Lines 83 to 93 of \<open>create_text_slide\<close>: the font and the font size in force after the
  nested \<open>try\<close> blocks. The bare \<open>except\<close> clauses catch every failure of the two
  \<open>truetype\<close> calls; \<open>ImageFont.load_default()\<close> takes no argument and is the library's
  built-in font.
\<close>

definition resolve_font :: "world \<Rightarrow> int \<Rightarrow> font \<times> int" where
  "resolve_font w fontsize =
     (if truetype w helvetica fontsize then (TrueType helvetica fontsize, fontsize)
      else if truetype w arial fontsize then (TrueType arial fontsize, fontsize)
      else (DefaultFont, 20))"

text \<open>
  Lines 97 to 106: the loop over the paragraphs. A paragraph with a non-blank character
  is wrapped by \<open>textwrap.fill\<close> to \<open>chars_per_line\<close> and its lines are appended; any other
  paragraph appends one empty line. The float division raises \<open>ZeroDivisionError\<close> for a
  font size of zero, and \<open>textwrap.fill\<close> raises \<open>ValueError\<close> for a width that is not
  positive.
\<close>

fun wrap_paragraphs :: "world \<Rightarrow> int \<Rightarrow> int \<Rightarrow> string list \<Rightarrow> error + string list" where
  "wrap_paragraphs w max_width fontsize [] = Inr []"
| "wrap_paragraphs w max_width fontsize (paragraph # rest) =
     (if strip paragraph \<noteq> [] then
        (let avg_char_width = real_of_int fontsize * 0.6 in
         if avg_char_width = 0 then Inl ZeroDivisionError
         else (let chars_per_line = py_int (real_of_int max_width / avg_char_width) in
               if chars_per_line \<le> 0 then Inl ValueError
               else (case wrap_paragraphs w max_width fontsize rest of
                       Inl e \<Rightarrow> Inl e
                     | Inr lines \<Rightarrow>
                         Inr (split_on newline (textwrap_fill w paragraph chars_per_line) @ lines))))
      else (case wrap_paragraphs w max_width fontsize rest of
              Inl e \<Rightarrow> Inl e
            | Inr lines \<Rightarrow> Inr ([] # lines)))"

text \<open>
  Lines 114 to 121: the loop that draws the lines, \<open>y\<close> advancing by the line height.
\<close>

fun draw_lines :: "world \<Rightarrow> font \<Rightarrow> int \<Rightarrow> int \<Rightarrow> int \<Rightarrow> string list \<Rightarrow> ((int \<times> int) \<times> string) list" where
  "draw_lines w fnt width line_height y [] = []"
| "draw_lines w fnt width line_height y (line # rest) =
     (case textbbox w fnt line of
        (x0, y0, x1, y1) \<Rightarrow>
          (let text_width = x1 - x0;
               x = (width - text_width) div 2
           in ((x, y), line) # draw_lines w fnt width line_height (y + line_height) rest))"

definition create_text_slide ::
  "world \<Rightarrow> string \<Rightarrow> real \<Rightarrow> int \<times> int \<Rightarrow> int \<Rightarrow> nat \<times> nat \<times> nat \<Rightarrow> nat \<times> nat \<times> nat \<Rightarrow> error + clip" where
  "create_text_slide w text duration size' fontsize color bg_color =
     (case resolve_font w fontsize of
        (fnt, fontsize') \<Rightarrow>
          (let max_width = fst size' - 200 in
           case wrap_paragraphs w max_width fontsize' (split_on newline text) of
             Inl e \<Rightarrow> Inl e
           | Inr lines \<Rightarrow>
               (let line_height = py_int (real_of_int fontsize' * 1.5);
                    total_height = int (length lines) * line_height;
                    y = (snd size' - total_height) div 2
                in Inr (ImageClip
                     \<lparr>canvas = size', background = bg_color, ink = color, typeface = fnt,
                      texts = draw_lines w fnt (fst size') line_height y lines\<rparr>
                     duration))))"

text \<open>The default arguments of \<open>create_text_slide\<close>.\<close>

definition default_size :: "int \<times> int" where
  "default_size = (1920, 1080)"

definition default_fontsize :: int where
  "default_fontsize = 60"

definition default_color :: "nat \<times> nat \<times> nat" where
  "default_color = (255, 255, 255)"

definition default_bg_color :: "nat \<times> nat \<times> nat" where
  "default_bg_color = (30, 30, 30)"

section \<open>Segment composer\<close>

text \<open>The twelve narrative beats of slide-only mode, with their nominal durations.\<close>

definition scenes :: "(string \<times> int) list" where
  "scenes =
    [(''BeanFlow\<newline>AI-Powered Coffee Shop Solution'', 3),
     (''The Problem:\<newline>Bottleneck at the Register'', 8),
     (''Customers wait...\<newline>Baristas are stressed...\<newline>Revenue is lost'', 8),
     (''The Solution:\<newline>BeanFlow AI System'', 5),
     (''Part 1:\<newline>Seamless Mobile/Kiosk Ordering'', 6),
     (''Part 2:\<newline>Predictive AI Engine'', 8),
     (''Forecast orders before\<newline>they're placed'', 7),
     (''Pre-prep ingredients\<newline>during payment'', 6),
     (''Result:\<newline>20% Faster Service'', 8),
     (''More customers served\<newline>Higher revenue\<newline>No extra staff needed'', 8),
     (''BeanFlow:\<newline>Your Competitive Advantage'', 5),
     (''Let's discuss your ROI'', 3)]"

text \<open>
  Lines 159 to 163: one slide per beat, at font size 70, held for the nominal duration
  times the scale factor.
\<close>

fun scene_clips :: "world \<Rightarrow> real \<Rightarrow> (string \<times> int) list \<Rightarrow> error + clip list" where
  "scene_clips w scale_factor [] = Inr []"
| "scene_clips w scale_factor ((text, duration) # rest) =
     (let adjusted_duration = real_of_int duration * scale_factor in
      case create_text_slide w text adjusted_duration default_size 70
             default_color default_bg_color of
        Inl e \<Rightarrow> Inl e
      | Inr clip \<Rightarrow>
          (case scene_clips w scale_factor rest of
             Inl e \<Rightarrow> Inl e
           | Inr others \<Rightarrow> Inr (clip # others)))"

definition create_video_without_pexels ::
  "generator \<Rightarrow> world \<Rightarrow> string \<Rightarrow> string \<Rightarrow> error + video" where
  "create_video_without_pexels g w audio_path script =
     (case audio_file w audio_path of
        None \<Rightarrow> Inl OSError
      | Some total_duration \<Rightarrow>
          (let total_scene_duration = sum_list (map snd scenes);
               scale_factor = total_duration / real_of_int total_scene_duration
           in case scene_clips w scale_factor scenes of
                Inl e \<Rightarrow> Inl e
              | Inr cs \<Rightarrow> Inr \<lparr>clips = cs, audio = (audio_path, total_duration)\<rparr>))"

text \<open>The eight search queries of footage mode.\<close>

definition queries :: "string list" where
  "queries =
    [''coffee shop busy'',
     ''coffee barista working'',
     ''people waiting in line'',
     ''mobile phone ordering'',
     ''artificial intelligence'',
     ''coffee preparation'',
     ''happy customers coffee'',
     ''business success'']"

text \<open>
  Line 201: \<open>next((v for v in video_files if v.get("quality") == "hd"), video_files[0])\<close>.
  The default \<open>video_files[0]\<close> is evaluated before the search, so an empty list raises.
\<close>

definition hd_video :: "variant list \<Rightarrow> error + variant" where
  "hd_video fs =
     (case fs of
        [] \<Rightarrow> Inl IndexError
      | first # _ \<Rightarrow>
          Inr (case find (\<lambda>v. quality v = Some ''hd'') fs of
                 Some v \<Rightarrow> v
               | None \<Rightarrow> first))"

text \<open>\<open>videos and videos[0].get("video_files")\<close>: the variants to choose from, if any.\<close>

definition first_video_files :: "video_entry list \<Rightarrow> variant list option" where
  "first_video_files videos =
     (case videos of
        [] \<Rightarrow> None
      | v # _ \<Rightarrow>
          (case video_files v of
             None \<Rightarrow> None
           | Some fs \<Rightarrow> if fs = [] then None else Some fs))"

text \<open>Line 205: the file name \<open>f"clip_{i}.mp4"\<close>.\<close>

definition clip_filename :: "nat \<Rightarrow> string" where
  "clip_filename i = ''clip_'' @ py_str i @ ''.mp4''"

text \<open>
  Lines 198 to 224, the body of the loop once the search has returned \<open>videos\<close>: the clip
  for query number \<open>i\<close>.
\<close>

definition footage_clip ::
  "generator \<Rightarrow> world \<Rightarrow> real \<Rightarrow> nat \<Rightarrow> string \<Rightarrow> video_entry list \<Rightarrow> error + clip" where
  "footage_clip g w duration_per_clip i query videos =
     (case first_video_files videos of
        Some fs \<Rightarrow>
          (case hd_video fs of
             Inl e \<Rightarrow> Inl e
           | Inr chosen \<Rightarrow>
               (case link chosen of
                  None \<Rightarrow> Inl KeyError
                | Some video_url \<Rightarrow>
                    (case download_video g w video_url (clip_filename i) of
                       Some video_path \<Rightarrow>
                         (case video_file w video_path of
                            None \<Rightarrow> Inl OSError
                          | Some d \<Rightarrow>
                              (let clip = VideoFileClip video_path d in
                               if clip_duration clip < duration_per_clip
                               then Inr (Loop clip duration_per_clip)
                               else Inr (Subclip clip 0 duration_per_clip)))
                     | None \<Rightarrow>
                         create_text_slide w (title query) duration_per_clip default_size
                           default_fontsize default_color default_bg_color)))
      | None \<Rightarrow>
          create_text_slide w (title query) duration_per_clip default_size
            default_fontsize default_color default_bg_color)"

text \<open>Lines 194 to 224: the loop over \<open>enumerate(queries)\<close>.\<close>

fun footage_clips ::
  "generator \<Rightarrow> world \<Rightarrow> real \<Rightarrow> (nat \<times> string) list \<Rightarrow> error + clip list" where
  "footage_clips g w duration_per_clip [] = Inr []"
| "footage_clips g w duration_per_clip ((i, query) # rest) =
     (let videos = search_pexels_videos g w query 3 in
      case footage_clip g w duration_per_clip i query videos of
        Inl e \<Rightarrow> Inl e
      | Inr clip \<Rightarrow>
          (case footage_clips g w duration_per_clip rest of
             Inl e \<Rightarrow> Inl e
           | Inr others \<Rightarrow> Inr (clip # others)))"

definition create_video_with_pexels ::
  "generator \<Rightarrow> world \<Rightarrow> string \<Rightarrow> string \<Rightarrow> error + video" where
  "create_video_with_pexels g w audio_path script =
     (case audio_file w audio_path of
        None \<Rightarrow> Inl OSError
      | Some total_duration \<Rightarrow>
          (let duration_per_clip = total_duration / real (length queries)
           in case footage_clips g w duration_per_clip (enumerate 0 queries) of
                Inl e \<Rightarrow> Inl e
              | Inr cs \<Rightarrow> Inr \<lparr>clips = cs, audio = (audio_path, total_duration)\<rparr>))"

section \<open>Pipeline\<close>

definition generate_audio :: "generator \<Rightarrow> world \<Rightarrow> string \<Rightarrow> error + string" where
  "generate_audio g w script =
     (let audio_path = output_dir g @ ''/'' @ ''audio.mp3'' in
      if gtts_save w script audio_path then Inr audio_path else Inl SynthesisError)"

text \<open>
  \<open>generate_video\<close> returns the output path; the video written there is returned with it,
  as the effect of \<open>write_videofile\<close>.
\<close>

definition generate_video ::
  "generator \<Rightarrow> world \<Rightarrow> string \<Rightarrow> bool \<Rightarrow> error + string \<times> video" where
  "generate_video g w script use_pexels =
     (case generate_audio g w script of
        Inl e \<Rightarrow> Inl e
      | Inr audio_path \<Rightarrow>
          (case (if use_pexels \<and> truthy (pexels_api_key g)
                 then create_video_with_pexels g w audio_path script
                 else create_video_without_pexels g w audio_path script) of
             Inl e \<Rightarrow> Inl e
           | Inr final_video \<Rightarrow>
               (let output_path = output_dir g @ ''/'' @ ''beanflow_pitch.mp4'' in
                if write_videofile w final_video output_path
                then Inr (output_path, final_video)
                else Inl EncodeError)))"

text \<open>
  \<open>main\<close>: the narration is the fixed literal of lines 271 to 283 (a parameter here; it
  only flows to the speech synthesiser), \<open>answer\<close> is the line that \<open>input\<close> returns.
\<close>

definition main :: "world \<Rightarrow> string \<Rightarrow> string \<Rightarrow> error + string \<times> video" where
  "main w script answer =
     (let generator = \<lparr>output_dir = ''beanflow_output'', pexels_api_key = None\<rparr>;
          pexels_key = strip answer
      in if pexels_key \<noteq> []
         then generate_video (set_pexels_api_key generator pexels_key) w script True
         else generate_video generator w script False)"

section \<open>Notions used in the statements\<close>

text \<open>The lines that one paragraph contributes to a slide, for a given wrap width.\<close>

definition paragraph_lines :: "world \<Rightarrow> int \<Rightarrow> string \<Rightarrow> string list" where
  "paragraph_lines w chars_per_line paragraph =
     (if strip paragraph \<noteq> []
      then split_on newline (textwrap_fill w paragraph chars_per_line)
      else [[]])"

text \<open>The measured width of a line: \<open>bbox[2] - bbox[0]\<close>.\<close>

definition bbox_width :: "world \<Rightarrow> font \<Rightarrow> string \<Rightarrow> int" where
  "bbox_width w fnt line = (case textbbox w fnt line of (x0, y0, x1, y1) \<Rightarrow> x1 - x0)"

text \<open>
  The failures of a footage beat that call for a fallback slide: the search result is
  empty, or its first entry has no file variants, or the download of the chosen variant
  returns the failure value.
\<close>

definition falls_back :: "generator \<Rightarrow> world \<Rightarrow> nat \<Rightarrow> video_entry list \<Rightarrow> bool" where
  "falls_back g w i videos =
     (case videos of
        [] \<Rightarrow> True
      | v # _ \<Rightarrow>
          (case video_files v of
             None \<Rightarrow> True
           | Some fs \<Rightarrow>
               if fs = [] then True
               else (case hd_video fs of
                       Inl e \<Rightarrow> False
                     | Inr chosen \<Rightarrow>
                         (case link chosen of
                            None \<Rightarrow> False
                          | Some url \<Rightarrow> download_video g w url (clip_filename i) = None))))"

text \<open>
  The pipeline run with a given composer: speech synthesis, then the composer, then the
  export.
\<close>

definition pipeline_with ::
  "(generator \<Rightarrow> world \<Rightarrow> string \<Rightarrow> string \<Rightarrow> error + video)
     \<Rightarrow> generator \<Rightarrow> world \<Rightarrow> string \<Rightarrow> error + string \<times> video" where
  "pipeline_with composer g w script =
     (case generate_audio g w script of
        Inl e \<Rightarrow> Inl e
      | Inr audio_path \<Rightarrow>
          (case composer g w audio_path script of
             Inl e \<Rightarrow> Inl e
           | Inr v \<Rightarrow>
               if write_videofile w v (output_dir g @ ''/'' @ ''beanflow_pitch.mp4'')
               then Inr (output_dir g @ ''/'' @ ''beanflow_pitch.mp4'', v)
               else Inl EncodeError))"

section \<open>Sample runs\<close>

text \<open>
  A world in which the narration lasts 60 seconds, no system font is installed, and the
  provider answers the first five queries: a clip with an \<open>sd\<close> and an \<open>hd\<close> variant (5
  seconds long); a first entry without file variants followed by a usable one; a
  variant whose download is refused; a clip of 12 seconds; a server error. Every other
  request gets no reply.
\<close>

definition studio :: world where
  "studio =
     \<lparr>gtts_save = (\<lambda>text path. True),
      audio_file = (\<lambda>path. Some 60),
      search_get = (\<lambda>key query per_page.
        if query = ''coffee shop busy'' then
          Reply 200 (Object (Some [VideoEntry (Some
            [Variant (Some ''sd'') (Some ''v1-sd''), Variant (Some ''hd'') (Some ''v1-hd'')])]))
        else if query = ''coffee barista working'' then
          Reply 200 (Object (Some
            [VideoEntry None, VideoEntry (Some [Variant (Some ''hd'') (Some ''v2-hd'')])]))
        else if query = ''people waiting in line'' then
          Reply 200 (Object (Some [VideoEntry (Some [Variant None (Some ''v3'')])]))
        else if query = ''mobile phone ordering'' then
          Reply 200 (Object (Some [VideoEntry (Some [Variant (Some ''hd'') (Some ''v4-hd'')])]))
        else if query = ''artificial intelligence'' then Reply 500 NotJson
        else NoReply),
      download_get = (\<lambda>url.
        if url = ''v1-hd'' \<or> url = ''v2-hd'' \<or> url = ''v4-hd'' then Reply 200 [''data'']
        else if url = ''v3'' then Reply 404 []
        else NoReply),
      write_file = (\<lambda>path chunks. True),
      video_file = (\<lambda>path. if path = ''beanflow_output/clip_0.mp4'' then Some 5 else Some 12),
      truetype = (\<lambda>path size. False),
      textwrap_fill = (\<lambda>paragraph width. take (nat width) (filter (\<lambda>c. c \<noteq> newline) paragraph)),
      textbbox = (\<lambda>fnt line. (0, 0, 12 * int (length line), 20)),
      write_videofile = (\<lambda>v path. True)\<rparr>"

text \<open>The same world with the provider rejecting every search (an invalid credential).\<close>

definition offline :: world where
  "offline = studio\<lparr>search_get := (\<lambda>key query per_page. Reply 401 NotJson)\<rparr>"

text \<open>The same world on a machine where the first system font loads at every size.\<close>

definition mac :: world where
  "mac = studio\<lparr>truetype := (\<lambda>path size. path = helvetica)\<rparr>"

text \<open>A generator as \<open>main\<close> creates it, and one with a key set.\<close>

definition fresh_generator :: generator where
  "fresh_generator = \<lparr>output_dir = ''beanflow_output'', pexels_api_key = None\<rparr>"

definition keyed_generator :: generator where
  "keyed_generator = set_pexels_api_key fresh_generator ''secret''"

section \<open>The slide renderer returns\<close>

text \<open>
  In exact arithmetic the wrap width \<open>int(max_width / (fontsize * 0.6))\<close> is the integer
  quotient of \<open>5 * max_width\<close> by \<open>3 * fontsize\<close>.
\<close>

lemma chars_per_line_eq:
  assumes "0 < fs" "0 \<le> mw"
  shows "py_int (real_of_int mw / (real_of_int fs * 0.6)) = (5 * mw) div (3 * fs)"
proof -
  have e: "real_of_int mw / (real_of_int fs * 0.6) = real_of_int (5 * mw) / real_of_int (3 * fs)"
    using assms by (simp add: field_simps)
  have "0 \<le> real_of_int mw / (real_of_int fs * 0.6)"
    using assms by simp
  then have "py_int (real_of_int mw / (real_of_int fs * 0.6)) = \<lfloor>real_of_int mw / (real_of_int fs * 0.6)\<rfloor>"
    by (simp add: py_int_def)
  also have "\<dots> = \<lfloor>real_of_int (5 * mw) / real_of_int (3 * fs)\<rfloor>"
    by (simp only: e)
  also have "\<dots> = (5 * mw) div (3 * fs)"
    by (rule floor_divide_of_int_eq)
  finally show ?thesis .
qed

lemma chars_per_line_floor:
  assumes "0 < fs" "0 \<le> mw"
  shows "\<lfloor>real_of_int mw / (real_of_int fs * 0.6)\<rfloor> = (5 * mw) div (3 * fs)"
proof -
  have "0 \<le> real_of_int mw / (real_of_int fs * 0.6)"
    using assms by simp
  then have "py_int (real_of_int mw / (real_of_int fs * 0.6)) = \<lfloor>real_of_int mw / (real_of_int fs * 0.6)\<rfloor>"
    by (simp add: py_int_def)
  then show ?thesis using chars_per_line_eq [OF assms] by simp
qed

lemma chars_per_line_pos:
  assumes "(0::int) < fs" "3 * fs \<le> 5 * mw"
  shows "0 < (5 * mw) div (3 * fs)"
  using assms by (simp add: pos_imp_zdiv_pos_iff)

lemma wrap_paragraphs_Inr:
  assumes "0 < fs" "3 * fs \<le> 5 * mw"
  shows "wrap_paragraphs w mw fs ps =
           Inr (concat (map (paragraph_lines w ((5 * mw) div (3 * fs))) ps))"
proof (induction ps)
  case Nil
  show ?case by simp
next
  case (Cons p ps)
  have mw: "0 \<le> mw" using assms by linarith
  have nz: "(real_of_int fs * 0.6 = 0) = False" using assms by simp
  have pos: "((5 * mw) div (3 * fs) \<le> 0) = False"
    using chars_per_line_pos [OF assms] by simp
  show ?case
    apply (subst wrap_paragraphs.simps)
    apply (simp only: Let_def chars_per_line_eq [OF assms(1) mw] Cons.IH nz pos if_False)
    apply (simp add: paragraph_lines_def [of w "(5 * mw) div (3 * fs)" p])
    done
qed

lemma draw_lines_text: "map snd (draw_lines w fnt width lh y ls) = ls"
  by (induction ls arbitrary: y) (auto split: prod.splits)

lemma draw_lines_pos_from:
  "map fst (draw_lines w fnt width lh (y + int n * lh) ls) =
     map (\<lambda>(k, line). ((width - bbox_width w fnt line) div 2, y + int k * lh)) (enumerate n ls)"
proof (induction ls arbitrary: n)
  case Nil
  show ?case by simp
next
  case (Cons l ls)
  obtain x0 y0 x1 y1 where b: "textbbox w fnt l = (x0, y0, x1, y1)"
    by (metis prod_cases4)
  have e: "y + int n * lh + lh = y + int (Suc n) * lh"
    by (simp add: algebra_simps)
  have "draw_lines w fnt width lh (y + int n * lh) (l # ls) =
          (((width - (x1 - x0)) div 2, y + int n * lh), l)
            # draw_lines w fnt width lh (y + int (Suc n) * lh) ls"
    by (simp only: draw_lines.simps b prod.case Let_def e)
  then show ?case
    using Cons.IH [of "Suc n"] by (simp add: bbox_width_def b)
qed

lemma draw_lines_pos:
  "map fst (draw_lines w fnt width lh y ls) =
     map (\<lambda>(k, line). ((width - bbox_width w fnt line) div 2, y + int k * lh)) (enumerate 0 ls)"
  using draw_lines_pos_from [of w fnt width lh y 0 ls] by simp

lemma create_text_slide_Inr:
  assumes "resolve_font w fontsize = (fnt, fs)" "0 < fs" "3 * fs \<le> 5 * (fst size' - 200)"
  shows "create_text_slide w text duration size' fontsize color bg_color =
     Inr (ImageClip
       \<lparr>canvas = size', background = bg_color, ink = color, typeface = fnt,
        texts = draw_lines w fnt (fst size') (py_int (real_of_int fs * 1.5))
          ((snd size' - int (length (concat (map (paragraph_lines w ((5 * (fst size' - 200)) div (3 * fs)))
                 (split_on newline text)))) * py_int (real_of_int fs * 1.5)) div 2)
          (concat (map (paragraph_lines w ((5 * (fst size' - 200)) div (3 * fs)))
                 (split_on newline text)))\<rparr>
       duration)"
  unfolding create_text_slide_def
  by (simp only: assms(1) prod.case Let_def wrap_paragraphs_Inr [OF assms(2,3)] sum.case)

lemma resolve_font_cases:
  "resolve_font w fontsize = (TrueType helvetica fontsize, fontsize)
   \<or> resolve_font w fontsize = (TrueType arial fontsize, fontsize)
   \<or> resolve_font w fontsize = (DefaultFont, 20)"
  by (simp add: resolve_font_def)

lemma create_text_slide_default_size:
  assumes "0 < fontsize" "fontsize \<le> 2866"
  shows "\<exists>img. create_text_slide w text duration default_size fontsize color bg_color =
           Inr (ImageClip img duration)"
proof -
  obtain fnt fs where r: "resolve_font w fontsize = (fnt, fs)"
    by (cases "resolve_font w fontsize")
  have "fs = fontsize \<or> fs = 20"
    using resolve_font_cases [of w fontsize] r by auto
  then have "0 < fs" "3 * fs \<le> 5 * (fst default_size - 200)"
    using assms by (auto simp: default_size_def)
  from create_text_slide_Inr [OF r this] show ?thesis by blast
qed


section \<open>Slide-only mode\<close>

lemma scene_sum:
  "sum_list (map (\<lambda>(text, d). real_of_int d * k) scs) = real_of_int (sum_list (map snd scs)) * k"
  by (induction scs) (auto simp: algebra_simps)

lemma total_scene_duration: "sum_list (map snd scenes) = 75"
  by (simp add: scenes_def)

lemma length_scenes: "length scenes = 12"
  by (simp add: scenes_def)

lemma scene_clips_Inr:
  "\<exists>cs. scene_clips w k scs = Inr cs
     \<and> map Inr cs = map (\<lambda>(text, d). create_text_slide w text (real_of_int d * k)
                         default_size 70 default_color default_bg_color) scs
     \<and> map clip_duration cs = map (\<lambda>(text, d). real_of_int d * k) scs"
proof (induction scs)
  case Nil
  show ?case by simp
next
  case (Cons s scs)
  obtain t d where s: "s = (t, d)" by (cases s)
  obtain img where c: "create_text_slide w t (real_of_int d * k) default_size 70
      default_color default_bg_color = Inr (ImageClip img (real_of_int d * k))"
    using create_text_slide_default_size [of 70 w t "real_of_int d * k" default_color default_bg_color]
    by fastforce
  from Cons.IH obtain cs where cs: "scene_clips w k scs = Inr cs"
     "map Inr cs = map (\<lambda>(text, d). create_text_slide w text (real_of_int d * k)
                         default_size 70 default_color default_bg_color) scs"
     "map clip_duration cs = map (\<lambda>(text, d). real_of_int d * k) scs"
    by blast
  show ?case
    by (simp add: s c cs Let_def)
qed

lemma slide_video:
  assumes "audio_file w audio_path = Some T"
  shows "\<exists>v. create_video_without_pexels g w audio_path script = Inr v
     \<and> audio v = (audio_path, T)
     \<and> map Inr (clips v) = map (\<lambda>(text, d). create_text_slide w text (real_of_int d * (T / 75))
                         default_size 70 default_color default_bg_color) scenes
     \<and> map clip_duration (clips v) = map (\<lambda>(text, d). real_of_int d * (T / 75)) scenes"
proof -
  obtain cs where cs: "scene_clips w (T / 75) scenes = Inr cs"
     "map Inr cs = map (\<lambda>(text, d). create_text_slide w text (real_of_int d * (T / 75))
                         default_size 70 default_color default_bg_color) scenes"
     "map clip_duration cs = map (\<lambda>(text, d). real_of_int d * (T / 75)) scenes"
    using scene_clips_Inr [of w "T / 75" scenes] by blast
  show ?thesis
    unfolding create_video_without_pexels_def
    by (simp add: assms total_scene_duration Let_def cs)
qed

text \<open>
  Claim C1. In slide-only mode, with \<open>T\<close> the measured duration of the audio, the composer
  returns a video of twelve clips, one per beat in order: the clip of a beat with
  nominal duration \<open>d\<close> is the slide that \<open>create_text_slide\<close> renders for the beat's text
  at font size 70 with the duration \<open>d * (T / sum of the nominal durations)\<close>, and the
  twelve durations add up to \<open>T\<close> (durations in exact arithmetic).
\<close>

theorem create_video_without_pexels_scaling:
  assumes "audio_file w audio_path = Some T"
  shows "\<exists>v. create_video_without_pexels g w audio_path script = Inr v
     \<and> length scenes = 12
     \<and> length (clips v) = 12
     \<and> map Inr (clips v) =
         map (\<lambda>(text, d). create_text_slide w text
                (real_of_int d * (T / real_of_int (sum_list (map snd scenes))))
                default_size 70 default_color default_bg_color) scenes
     \<and> map clip_duration (clips v) =
         map (\<lambda>(text, d). real_of_int d * (T / real_of_int (sum_list (map snd scenes)))) scenes
     \<and> sum_list (map clip_duration (clips v)) = T"
proof -
  from slide_video [OF assms, of g script] obtain v where
    v: "create_video_without_pexels g w audio_path script = Inr v"
       "map Inr (clips v) = map (\<lambda>(text, d). create_text_slide w text (real_of_int d * (T / 75))
                         default_size 70 default_color default_bg_color) scenes"
       "map clip_duration (clips v) = map (\<lambda>(text, d). real_of_int d * (T / 75)) scenes"
    by blast
  have "length (map clip_duration (clips v)) = length scenes"
    by (simp only: v(3) length_map)
  then have len: "length (clips v) = 12"
    by (simp add: length_scenes)
  have "sum_list (map clip_duration (clips v)) = real_of_int (sum_list (map snd scenes)) * (T / 75)"
    by (simp only: v(3) scene_sum)
  then have total: "sum_list (map clip_duration (clips v)) = T"
    by (simp add: total_scene_duration)
  show ?thesis
    using v len total by (simp add: total_scene_duration length_scenes)
qed

theorem create_video_without_pexels_scaling_witness:
  "audio_file studio ''beanflow_output/audio.mp3'' = Some 60
   \<and> (\<exists>v. create_video_without_pexels fresh_generator studio ''beanflow_output/audio.mp3'' ''pitch'' = Inr v
        \<and> length (clips v) = 12
        \<and> map clip_duration (clips v) = [12/5, 32/5, 32/5, 4, 24/5, 32/5, 28/5, 24/5, 32/5, 32/5, 4, 12/5]
        \<and> sum_list (map clip_duration (clips v)) = 60)"
proof -
  have a: "audio_file studio ''beanflow_output/audio.mp3'' = Some 60"
    by (simp add: studio_def)
  from create_video_without_pexels_scaling [OF a, of fresh_generator "''pitch''"]
  show ?thesis
    using a by (auto simp: scenes_def)
qed

section \<open>Footage mode\<close>

lemma fallback_slide:
  "\<exists>img. create_text_slide w t d default_size default_fontsize default_color default_bg_color =
           Inr (ImageClip img d)"
  using create_text_slide_default_size [of default_fontsize w t d default_color default_bg_color]
  by (simp add: default_fontsize_def)

lemma hd_video_Inr: "fs \<noteq> [] \<Longrightarrow> \<exists>v. hd_video fs = Inr v"
  by (cases fs) (simp_all add: hd_video_def)

lemma first_video_files_None:
  "first_video_files videos = None \<longleftrightarrow>
     videos = [] \<or> (\<exists>v rest. videos = v # rest \<and> (video_files v = None \<or> video_files v = Some []))"
  by (auto simp: first_video_files_def split: list.splits option.splits)

lemma first_video_files_Some:
  "first_video_files videos = Some fs \<longleftrightarrow>
     (\<exists>v rest. videos = v # rest \<and> video_files v = Some fs \<and> fs \<noteq> [])"
  by (auto simp: first_video_files_def split: list.splits option.splits)

lemma footage_clip_no_variants:
  assumes "first_video_files videos = None"
  shows "footage_clip g w dpc i query videos =
     create_text_slide w (title query) dpc default_size default_fontsize default_color default_bg_color"
  by (simp add: footage_clip_def assms)

lemma footage_clip_download_failed:
  assumes "first_video_files videos = Some fs" "hd_video fs = Inr chosen" "link chosen = Some url"
    "download_video g w url (clip_filename i) = None"
  shows "footage_clip g w dpc i query videos =
     create_text_slide w (title query) dpc default_size default_fontsize default_color default_bg_color"
  by (simp add: footage_clip_def assms)

lemma footage_clip_downloaded:
  assumes "first_video_files videos = Some fs" "hd_video fs = Inr chosen" "link chosen = Some url"
    "download_video g w url (clip_filename i) = Some path" "video_file w path = Some d"
  shows "footage_clip g w dpc i query videos =
     Inr (if d < dpc then Loop (VideoFileClip path d) dpc
          else Subclip (VideoFileClip path d) 0 dpc)"
  by (simp add: footage_clip_def assms Let_def)

lemma footage_clip_duration:
  assumes "footage_clip g w dpc i query videos = Inr c"
  shows "clip_duration c = dpc"
proof -
  obtain img where s: "create_text_slide w (title query) dpc default_size default_fontsize
      default_color default_bg_color = Inr (ImageClip img dpc)"
    using fallback_slide by blast
  show ?thesis
    using assms s
    by (auto simp: footage_clip_def Let_def split: option.splits sum.splits if_splits)
qed

lemma footage_clip_Inl:
  assumes "footage_clip g w dpc i query videos = Inl e"
  shows "e = KeyError \<or> e = OSError"
proof -
  obtain img where s: "create_text_slide w (title query) dpc default_size default_fontsize
      default_color default_bg_color = Inr (ImageClip img dpc)"
    using fallback_slide by blast
  have "\<And>fs. first_video_files videos = Some fs \<Longrightarrow> hd_video fs \<noteq> Inl e"
    using hd_video_Inr by (fastforce simp: first_video_files_Some)
  then show ?thesis
    using assms s
    by (auto simp: footage_clip_def Let_def split: option.splits sum.splits if_splits)
qed

lemma footage_clips_Inr:
  assumes "footage_clips g w dpc iqs = Inr cs"
  shows "map Inr cs = map (\<lambda>(i, query). footage_clip g w dpc i query
                             (search_pexels_videos g w query 3)) iqs
     \<and> map clip_duration cs = replicate (length iqs) dpc"
  using assms
proof (induction iqs arbitrary: cs)
  case Nil
  then show ?case by simp
next
  case (Cons iq iqs)
  obtain i query where iq: "iq = (i, query)" by (cases iq)
  from Cons.prems obtain c rest where
    c: "footage_clip g w dpc i query (search_pexels_videos g w query 3) = Inr c"
    and rest: "footage_clips g w dpc iqs = Inr rest" and cs: "cs = c # rest"
    by (auto simp: iq Let_def split: sum.splits)
  from Cons.IH [OF rest] footage_clip_duration [OF c] show ?case
    by (simp add: iq c cs)
qed

lemma footage_clips_Inl:
  assumes "footage_clips g w dpc iqs = Inl e"
  shows "\<exists>k < length iqs. footage_clip g w dpc (fst (iqs ! k)) (snd (iqs ! k))
            (search_pexels_videos g w (snd (iqs ! k)) 3) = Inl e"
  using assms
proof (induction iqs)
  case Nil
  then show ?case by simp
next
  case (Cons iq iqs)
  obtain i query where iq: "iq = (i, query)" by (cases iq)
  show ?case
  proof (cases "footage_clip g w dpc i query (search_pexels_videos g w query 3)")
    case (Inl e')
    with Cons.prems have "e' = e" by (simp add: iq Let_def)
    with Inl have "footage_clip g w dpc (fst ((iq # iqs) ! 0)) (snd ((iq # iqs) ! 0))
            (search_pexels_videos g w (snd ((iq # iqs) ! 0)) 3) = Inl e"
      by (simp add: iq)
    then show ?thesis by (intro exI [of _ 0]) simp
  next
    case (Inr c)
    with Cons.prems have "footage_clips g w dpc iqs = Inl e"
      by (simp add: iq Let_def split: sum.splits)
    from Cons.IH [OF this] obtain k where "k < length iqs"
      "footage_clip g w dpc (fst (iqs ! k)) (snd (iqs ! k))
            (search_pexels_videos g w (snd (iqs ! k)) 3) = Inl e"
      by blast
    then show ?thesis by (intro exI [of _ "Suc k"]) simp
  qed
qed

lemma length_queries: "length queries = 8"
  by (simp add: queries_def)

lemma footage_video:
  assumes "audio_file w audio_path = Some T"
  shows "create_video_with_pexels g w audio_path script =
     (case footage_clips g w (T / 8) (enumerate 0 queries) of
        Inl e \<Rightarrow> Inl e
      | Inr cs \<Rightarrow> Inr \<lparr>clips = cs, audio = (audio_path, T)\<rparr>)"
  by (simp add: create_video_with_pexels_def assms length_queries Let_def)


text \<open>
  Claim C2. In footage mode, with \<open>T\<close> the measured duration of the audio, the composer
  either returns a video with exactly eight clips, the clip at position \<open>i\<close> being the
  one the loop body produces for query \<open>i\<close> of the fixed list of eight, each of duration
  \<open>T / 8\<close>, so that the track lasts \<open>T\<close> (durations in exact arithmetic); or an exception
  raised in one beat escapes: \<open>KeyError\<close> for a chosen variant without a link, or the
  failure of \<open>VideoFileClip\<close> on the downloaded file. The sample run in the world
  \<open>studio\<close> returns, with looped, trimmed and fallback clips.
\<close>

theorem create_video_with_pexels_segments:
  assumes "audio_file w audio_path = Some T"
  shows "(\<exists>v. create_video_with_pexels g w audio_path script = Inr v
            \<and> length queries = 8
            \<and> length (clips v) = 8
            \<and> map Inr (clips v) =
                map (\<lambda>(i, query). footage_clip g w (T / 8) i query
                                     (search_pexels_videos g w query 3)) (enumerate 0 queries)
            \<and> map clip_duration (clips v) = replicate 8 (T / 8)
            \<and> video_duration v = T)
       \<or> (\<exists>e k. k < 8 \<and> (e = KeyError \<or> e = OSError)
            \<and> footage_clip g w (T / 8) k (queries ! k)
                  (search_pexels_videos g w (queries ! k) 3) = Inl e
            \<and> create_video_with_pexels g w audio_path script = Inl e)"
proof (cases "footage_clips g w (T / 8) (enumerate 0 queries)")
  case (Inr cs)
  from footage_clips_Inr [OF Inr] have
    m: "map Inr cs = map (\<lambda>(i, query). footage_clip g w (T / 8) i query
                             (search_pexels_videos g w query 3)) (enumerate 0 queries)"
    and d: "map clip_duration cs = replicate 8 (T / 8)"
    by (simp_all add: length_queries)
  have "length (map clip_duration cs) = 8"
    by (simp only: d length_replicate)
  then have len: "length cs = 8" by simp
  have total: "sum_list (map clip_duration cs) = T"
    by (simp add: d sum_list_replicate)
  have "create_video_with_pexels g w audio_path script = Inr \<lparr>clips = cs, audio = (audio_path, T)\<rparr>"
    by (simp add: footage_video [OF assms] Inr)
  then show ?thesis
    using m d len total by (simp add: length_queries video_duration_def)
next
  case (Inl e)
  from footage_clips_Inl [OF Inl] obtain k where k: "k < 8"
    and f: "footage_clip g w (T / 8) (fst (enumerate 0 queries ! k)) (snd (enumerate 0 queries ! k))
            (search_pexels_videos g w (snd (enumerate 0 queries ! k)) 3) = Inl e"
    by (auto simp: length_queries)
  have n: "enumerate 0 queries ! k = (k, queries ! k)"
    using k by (simp add: nth_enumerate_eq length_queries)
  have f': "footage_clip g w (T / 8) k (queries ! k)
              (search_pexels_videos g w (queries ! k) 3) = Inl e"
    using f by (simp add: n)
  have "create_video_with_pexels g w audio_path script = Inl e"
    by (simp add: footage_video [OF assms] Inl)
  then show ?thesis
    using k f' footage_clip_Inl [OF f'] by blast
qed

lemma fallback_slide_not_Inl:
  "create_text_slide w t d default_size default_fontsize default_color default_bg_color \<noteq> Inl e"
  using fallback_slide [of w t d] by auto

lemma studio_search:
  "search_pexels_videos keyed_generator studio ''coffee shop busy'' 3 =
     [VideoEntry (Some [Variant (Some ''sd'') (Some ''v1-sd''), Variant (Some ''hd'') (Some ''v1-hd'')])]"
  by (simp add: search_pexels_videos_def keyed_generator_def fresh_generator_def
      set_pexels_api_key_def studio_def raise_for_status_def)

lemma studio_footage_no_error:
  "footage_clips keyed_generator studio (15 / 2) (enumerate 0 queries) \<noteq> Inl e"
  by (simp add: queries_def search_pexels_videos_def keyed_generator_def fresh_generator_def
      set_pexels_api_key_def studio_def raise_for_status_def footage_clip_def first_video_files_def
      hd_video_def download_video_def clip_filename_def Let_def py_str.simps digit_char_def
      fallback_slide_not_Inl split: sum.splits)


theorem create_video_with_pexels_segments_witness:
  "audio_file studio ''beanflow_output/audio.mp3'' = Some 60
   \<and> (\<exists>v. create_video_with_pexels keyed_generator studio ''beanflow_output/audio.mp3'' ''pitch'' = Inr v
        \<and> length (clips v) = 8
        \<and> map clip_duration (clips v) = replicate 8 (15 / 2)
        \<and> video_duration v = 60)"
proof -
  have a: "audio_file studio ''beanflow_output/audio.mp3'' = Some 60"
    by (simp add: studio_def)
  have fv: "create_video_with_pexels keyed_generator studio ''beanflow_output/audio.mp3'' ''pitch'' =
     (case footage_clips keyed_generator studio (15 / 2) (enumerate 0 queries) of
        Inl e \<Rightarrow> Inl e
      | Inr cs \<Rightarrow> Inr \<lparr>clips = cs, audio = (''beanflow_output/audio.mp3'', 60)\<rparr>)"
    using footage_video [OF a, of keyed_generator "''pitch''"] by simp
  have "create_video_with_pexels keyed_generator studio ''beanflow_output/audio.mp3'' ''pitch'' \<noteq> Inl e" for e
  proof (cases "footage_clips keyed_generator studio (15 / 2) (enumerate 0 queries)")
    case (Inl e')
    then show ?thesis using studio_footage_no_error [of e'] by simp
  next
    case (Inr cs)
    then show ?thesis by (simp add: fv)
  qed
  with create_video_with_pexels_segments [OF a, of keyed_generator "''pitch''"]
  show ?thesis
    using a by auto
qed

text \<open>
  Claim C3. For every clip that is downloaded and opened, with native duration \<open>d\<close>: when
  \<open>d\<close> is strictly less than the allotted duration the beat's clip is the file looped to
  the allotted duration, otherwise it is the subclip of the file from time zero to the
  allotted duration; in both cases its duration is the allotted one.
\<close>

theorem footage_clip_loop_or_trim:
  assumes "videos = v # rest" "video_files v = Some fs" "fs \<noteq> []"
    "hd_video fs = Inr chosen" "link chosen = Some url"
    "download_video g w url (clip_filename i) = Some path"
    "video_file w path = Some d"
  shows "\<exists>c. footage_clip g w dpc i query videos = Inr c
     \<and> c = (if d < dpc then Loop (VideoFileClip path d) dpc
            else Subclip (VideoFileClip path d) 0 dpc)
     \<and> clip_duration c = dpc"
proof -
  have f: "first_video_files videos = Some fs"
    using assms(1-3) by (simp add: first_video_files_Some)
  show ?thesis
    by (simp add: footage_clip_downloaded [OF f assms(4-7)])
qed

lemma clip_filename_0: "clip_filename 0 = ''clip_0.mp4''"
  by code_simp

lemma clip_filename_3: "clip_filename 3 = ''clip_3.mp4''"
  by code_simp

lemma studio_download:
  "download_video keyed_generator studio ''v1-hd'' (clip_filename 0) = Some ''beanflow_output/clip_0.mp4''"
  "download_video keyed_generator studio ''v4-hd'' (clip_filename 3) = Some ''beanflow_output/clip_3.mp4''"
  by (simp_all add: download_video_def keyed_generator_def fresh_generator_def
      set_pexels_api_key_def studio_def raise_for_status_def clip_filename_0 clip_filename_3)

theorem footage_clip_loop_or_trim_witness:
  "footage_clip keyed_generator studio (15 / 2) 0 ''coffee shop busy''
      (search_pexels_videos keyed_generator studio ''coffee shop busy'' 3)
     = Inr (Loop (VideoFileClip ''beanflow_output/clip_0.mp4'' 5) (15 / 2))
   \<and> footage_clip keyed_generator studio (15 / 2) 3 ''mobile phone ordering''
      (search_pexels_videos keyed_generator studio ''mobile phone ordering'' 3)
     = Inr (Subclip (VideoFileClip ''beanflow_output/clip_3.mp4'' 12) 0 (15 / 2))"
proof -
  have s0: "search_pexels_videos keyed_generator studio ''coffee shop busy'' 3 =
     VideoEntry (Some [Variant (Some ''sd'') (Some ''v1-sd''), Variant (Some ''hd'') (Some ''v1-hd'')]) # []"
    by (simp add: studio_search)
  have s3: "search_pexels_videos keyed_generator studio ''mobile phone ordering'' 3 =
     VideoEntry (Some [Variant (Some ''hd'') (Some ''v4-hd'')]) # []"
    by (simp add: search_pexels_videos_def keyed_generator_def fresh_generator_def
      set_pexels_api_key_def studio_def raise_for_status_def)
  have h0: "hd_video [Variant (Some ''sd'') (Some ''v1-sd''), Variant (Some ''hd'') (Some ''v1-hd'')]
     = Inr (Variant (Some ''hd'') (Some ''v1-hd''))"
    by (simp add: hd_video_def)
  have h3: "hd_video [Variant (Some ''hd'') (Some ''v4-hd'')] = Inr (Variant (Some ''hd'') (Some ''v4-hd''))"
    by (simp add: hd_video_def)
  have d0: "video_file studio ''beanflow_output/clip_0.mp4'' = Some 5"
    and d3: "video_file studio ''beanflow_output/clip_3.mp4'' = Some 12"
    by (simp_all add: studio_def)
  from footage_clip_loop_or_trim [OF s0 _ _ h0 _ studio_download(1) d0, of "15 / 2" "''coffee shop busy''"]
       footage_clip_loop_or_trim [OF s3 _ _ h3 _ studio_download(2) d3, of "15 / 2" "''mobile phone ordering''"]
  show ?thesis by simp
qed


lemma falls_back_iff:
  "falls_back g w i videos \<longleftrightarrow>
     (videos = []
      \<or> (\<exists>v rest. videos = v # rest \<and> (video_files v = None \<or> video_files v = Some []))
      \<or> (\<exists>v rest fs chosen url. videos = v # rest \<and> video_files v = Some fs
            \<and> hd_video fs = Inr chosen \<and> link chosen = Some url
            \<and> download_video g w url (clip_filename i) = None))"
proof (cases videos)
  case Nil
  then show ?thesis by (simp add: falls_back_def)
next
  case (Cons v rest)
  show ?thesis
  proof (cases "video_files v")
    case None
    then show ?thesis by (simp add: falls_back_def Cons)
  next
    case (Some fs)
    show ?thesis
    proof (cases "fs = []")
      case True
      then show ?thesis by (simp add: falls_back_def Cons Some)
    next
      case False
      then obtain chosen where c: "hd_video fs = Inr chosen"
        using hd_video_Inr by blast
      show ?thesis
        using False by (cases "link chosen") (simp_all add: falls_back_def Cons Some c)
    qed
  qed
qed

lemma falls_back_slide:
  assumes "falls_back g w i videos"
  shows "footage_clip g w dpc i query videos =
     create_text_slide w (title query) dpc default_size default_fontsize default_color default_bg_color"
proof (cases "first_video_files videos")
  case None
  then show ?thesis by (rule footage_clip_no_variants)
next
  case (Some fs)
  then obtain v rest where v: "videos = v # rest" "video_files v = Some fs" "fs \<noteq> []"
    by (auto simp: first_video_files_Some)
  with assms obtain chosen url where "hd_video fs = Inr chosen" "link chosen = Some url"
    "download_video g w url (clip_filename i) = None"
    by (auto simp: falls_back_def split: sum.splits option.splits)
  then show ?thesis
    by (rule footage_clip_download_failed [OF Some])
qed

lemma footage_clips_all_fall_back:
  assumes "list_all (\<lambda>(i, query). falls_back g w i (search_pexels_videos g w query 3)) iqs"
  shows "\<exists>cs. footage_clips g w dpc iqs = Inr cs
     \<and> map Inr cs = map (\<lambda>(i, query). create_text_slide w (title query) dpc default_size
                            default_fontsize default_color default_bg_color) iqs
     \<and> list_all (\<lambda>c. \<exists>img. c = ImageClip img dpc) cs"
  using assms
proof (induction iqs)
  case Nil
  show ?case by simp
next
  case (Cons iq iqs)
  obtain i query where iq: "iq = (i, query)" by (cases iq)
  from Cons.prems have fb: "falls_back g w i (search_pexels_videos g w query 3)"
    and rest: "list_all (\<lambda>(i, query). falls_back g w i (search_pexels_videos g w query 3)) iqs"
    by (simp_all add: iq)
  obtain img where s: "create_text_slide w (title query) dpc default_size default_fontsize
      default_color default_bg_color = Inr (ImageClip img dpc)"
    using fallback_slide by blast
  from Cons.IH [OF rest] obtain cs where cs: "footage_clips g w dpc iqs = Inr cs"
     "map Inr cs = map (\<lambda>(i, query). create_text_slide w (title query) dpc default_size
                            default_fontsize default_color default_bg_color) iqs"
     "list_all (\<lambda>c. \<exists>img. c = ImageClip img dpc) cs"
    by blast
  show ?case
    by (simp add: iq falls_back_slide [OF fb] s cs Let_def)
qed

lemma map_enumerate_snd: "map (\<lambda>(i, x). f x) (enumerate n xs) = map f xs"
  by (induction xs arbitrary: n) simp_all

lemma titles: "map title queries =
   [''Coffee Shop Busy'', ''Coffee Barista Working'', ''People Waiting In Line'',
    ''Mobile Phone Ordering'', ''Artificial Intelligence'', ''Coffee Preparation'',
    ''Happy Customers Coffee'', ''Business Success'']"
  by code_simp

text \<open>
  Claim C4. When the search result is empty, or its first entry has no file variants, or
  the download of the chosen variant fails, the clip of the beat is the one slide that
  \<open>create_text_slide\<close> renders for the query in title case (\<open>query.title()\<close>: each word
  capitalised) with the allotted duration. When that holds for all eight queries, the
  composer returns exactly eight such slides, for the eight titles listed.
\<close>

theorem footage_fallback_slide:
  "(falls_back g w i videos \<longleftrightarrow>
     (videos = []
      \<or> (\<exists>v rest. videos = v # rest \<and> (video_files v = None \<or> video_files v = Some []))
      \<or> (\<exists>v rest fs chosen url. videos = v # rest \<and> video_files v = Some fs
            \<and> hd_video fs = Inr chosen \<and> link chosen = Some url
            \<and> download_video g w url (clip_filename i) = None)))
   \<and> (falls_back g w i videos \<longrightarrow>
        footage_clip g w dpc i query videos =
          create_text_slide w (title query) dpc default_size default_fontsize
            default_color default_bg_color
        \<and> (\<exists>img. footage_clip g w dpc i query videos = Inr (ImageClip img dpc)))
   \<and> (audio_file w audio_path = Some T
        \<and> list_all (\<lambda>(i, query). falls_back g w i (search_pexels_videos g w query 3))
              (enumerate 0 queries) \<longrightarrow>
        (\<exists>v. create_video_with_pexels g w audio_path script = Inr v
           \<and> length (clips v) = 8
           \<and> map Inr (clips v) =
               map (\<lambda>query. create_text_slide w (title query) (T / 8) default_size
                      default_fontsize default_color default_bg_color) queries
           \<and> list_all (\<lambda>c. \<exists>img. c = ImageClip img (T / 8)) (clips v)))
   \<and> map title queries =
        [''Coffee Shop Busy'', ''Coffee Barista Working'', ''People Waiting In Line'',
         ''Mobile Phone Ordering'', ''Artificial Intelligence'', ''Coffee Preparation'',
         ''Happy Customers Coffee'', ''Business Success'']"
proof (intro conjI impI)
  show "falls_back g w i videos \<longleftrightarrow>
     (videos = []
      \<or> (\<exists>v rest. videos = v # rest \<and> (video_files v = None \<or> video_files v = Some []))
      \<or> (\<exists>v rest fs chosen url. videos = v # rest \<and> video_files v = Some fs
            \<and> hd_video fs = Inr chosen \<and> link chosen = Some url
            \<and> download_video g w url (clip_filename i) = None))"
    by (rule falls_back_iff)
next
  assume fb: "falls_back g w i videos"
  show e: "footage_clip g w dpc i query videos =
          create_text_slide w (title query) dpc default_size default_fontsize
            default_color default_bg_color"
    by (rule falls_back_slide [OF fb])
  show "\<exists>img. footage_clip g w dpc i query videos = Inr (ImageClip img dpc)"
    unfolding e by (rule fallback_slide)
next
  assume h: "audio_file w audio_path = Some T
        \<and> list_all (\<lambda>(i, query). falls_back g w i (search_pexels_videos g w query 3))
              (enumerate 0 queries)"
  then have a: "audio_file w audio_path = Some T"
    and l: "list_all (\<lambda>(i, query). falls_back g w i (search_pexels_videos g w query 3))
              (enumerate 0 queries)"
    by simp_all
  from footage_clips_all_fall_back [OF l, of "T / 8"] obtain cs where
    cs: "footage_clips g w (T / 8) (enumerate 0 queries) = Inr cs"
     "map Inr cs = map (\<lambda>(i, query). create_text_slide w (title query) (T / 8) default_size
                            default_fontsize default_color default_bg_color) (enumerate 0 queries)"
     "list_all (\<lambda>c. \<exists>img. c = ImageClip img (T / 8)) cs"
    by blast
  have m: "map Inr cs = map (\<lambda>query. create_text_slide w (title query) (T / 8) default_size
                      default_fontsize default_color default_bg_color) queries"
    by (simp only: cs(2) map_enumerate_snd)
  have "length (map Inr cs :: (error + clip) list) = length queries"
    by (simp only: m length_map)
  then have len: "length cs = 8"
    by (simp add: length_queries)
  have "create_video_with_pexels g w audio_path script = Inr \<lparr>clips = cs, audio = (audio_path, T)\<rparr>"
    by (simp add: footage_video [OF a] cs(1))
  then show "\<exists>v. create_video_with_pexels g w audio_path script = Inr v
           \<and> length (clips v) = 8
           \<and> map Inr (clips v) =
               map (\<lambda>query. create_text_slide w (title query) (T / 8) default_size
                      default_fontsize default_color default_bg_color) queries
           \<and> list_all (\<lambda>c. \<exists>img. c = ImageClip img (T / 8)) (clips v)"
    using m len cs(3) by simp
next
  show "map title queries =
        [''Coffee Shop Busy'', ''Coffee Barista Working'', ''People Waiting In Line'',
         ''Mobile Phone Ordering'', ''Artificial Intelligence'', ''Coffee Preparation'',
         ''Happy Customers Coffee'', ''Business Success'']"
    by (rule titles)
qed


lemma offline_search: "search_pexels_videos keyed_generator offline query 3 = []"
  by (simp add: search_pexels_videos_def keyed_generator_def fresh_generator_def
      set_pexels_api_key_def offline_def studio_def raise_for_status_def)

theorem footage_fallback_slide_witness:
  "audio_file offline ''beanflow_output/audio.mp3'' = Some 60
   \<and> list_all (\<lambda>(i, query). falls_back keyed_generator offline i
                  (search_pexels_videos keyed_generator offline query 3)) (enumerate 0 queries)
   \<and> (\<exists>v. create_video_with_pexels keyed_generator offline ''beanflow_output/audio.mp3'' ''pitch'' = Inr v
        \<and> length (clips v) = 8
        \<and> map Inr (clips v) =
            map (\<lambda>query. create_text_slide offline (title query) (15 / 2) default_size
                   default_fontsize default_color default_bg_color) queries
        \<and> list_all (\<lambda>c. \<exists>img. c = ImageClip img (15 / 2)) (clips v))"
proof -
  have a: "audio_file offline ''beanflow_output/audio.mp3'' = Some 60"
    by (simp add: offline_def studio_def)
  have l: "list_all (\<lambda>(i, query). falls_back keyed_generator offline i
                  (search_pexels_videos keyed_generator offline query 3)) (enumerate 0 queries)"
    by (simp add: offline_search falls_back_def queries_def)
  from footage_fallback_slide [of keyed_generator offline 0 "[]" 0 "[]"
      "''beanflow_output/audio.mp3''" 60 "''pitch''"]
  show ?thesis
    using a l by simp
qed

text \<open>
  Claim C10. The clip of a beat depends on the first entry of the search result only, and
  when that entry has no file variants the clip is the fallback slide, whatever the later
  entries are. In the sample run a later entry has a variant that would download.
\<close>

theorem footage_clip_first_result_only:
  "footage_clip g w dpc i query (v # rest) = footage_clip g w dpc i query [v]
   \<and> (video_files v = None \<or> video_files v = Some [] \<longrightarrow>
        footage_clip g w dpc i query (v # rest) =
          create_text_slide w (title query) dpc default_size default_fontsize
            default_color default_bg_color
        \<and> (\<exists>img. footage_clip g w dpc i query (v # rest) = Inr (ImageClip img dpc)))"
proof (intro conjI impI)
  have "first_video_files (v # rest) = first_video_files [v]"
    by (simp add: first_video_files_def)
  then show "footage_clip g w dpc i query (v # rest) = footage_clip g w dpc i query [v]"
    by (simp add: footage_clip_def)
next
  assume "video_files v = None \<or> video_files v = Some []"
  then have n: "first_video_files (v # rest) = None"
    by (auto simp: first_video_files_def)
  show e: "footage_clip g w dpc i query (v # rest) =
          create_text_slide w (title query) dpc default_size default_fontsize
            default_color default_bg_color"
    by (rule footage_clip_no_variants [OF n])
  show "\<exists>img. footage_clip g w dpc i query (v # rest) = Inr (ImageClip img dpc)"
    unfolding e by (rule fallback_slide)
qed

theorem footage_clip_first_result_only_witness:
  "search_pexels_videos keyed_generator studio ''coffee barista working'' 3 =
     [VideoEntry None, VideoEntry (Some [Variant (Some ''hd'') (Some ''v2-hd'')])]
   \<and> footage_clip keyed_generator studio (15 / 2) 1 ''coffee barista working''
       [VideoEntry None, VideoEntry (Some [Variant (Some ''hd'') (Some ''v2-hd'')])] =
      create_text_slide studio (title ''coffee barista working'') (15 / 2) default_size default_fontsize
        default_color default_bg_color
   \<and> (\<exists>img. footage_clip keyed_generator studio (15 / 2) 1 ''coffee barista working''
       [VideoEntry None, VideoEntry (Some [Variant (Some ''hd'') (Some ''v2-hd'')])] =
         Inr (ImageClip img (15 / 2)))
   \<and> footage_clip keyed_generator studio (15 / 2) 1 ''coffee barista working''
       [VideoEntry (Some [Variant (Some ''hd'') (Some ''v2-hd'')])] =
      Inr (Subclip (VideoFileClip ''beanflow_output/clip_1.mp4'' 12) 0 (15 / 2))"
proof -
  have s: "search_pexels_videos keyed_generator studio ''coffee barista working'' 3 =
     [VideoEntry None, VideoEntry (Some [Variant (Some ''hd'') (Some ''v2-hd'')])]"
    by (simp add: search_pexels_videos_def keyed_generator_def fresh_generator_def
      set_pexels_api_key_def studio_def raise_for_status_def)
  have c: "clip_filename 1 = ''clip_1.mp4''"
    by code_simp
  have later: "footage_clip keyed_generator studio (15 / 2) 1 ''coffee barista working''
       [VideoEntry (Some [Variant (Some ''hd'') (Some ''v2-hd'')])] =
      Inr (Subclip (VideoFileClip ''beanflow_output/clip_1.mp4'' 12) 0 (15 / 2))"
    by (simp add: footage_clip_def first_video_files_def hd_video_def download_video_def
        c [unfolded One_nat_def]
        keyed_generator_def fresh_generator_def set_pexels_api_key_def studio_def
        raise_for_status_def)
  have p: "video_files (VideoEntry None) = None \<or> video_files (VideoEntry None) = Some []"
    by simp
  from footage_clip_first_result_only [of keyed_generator studio "15 / 2" 1
      "''coffee barista working''" "VideoEntry None"
      "[VideoEntry (Some [Variant (Some ''hd'') (Some ''v2-hd'')])]"] p
  have "footage_clip keyed_generator studio (15 / 2) 1 ''coffee barista working''
       [VideoEntry None, VideoEntry (Some [Variant (Some ''hd'') (Some ''v2-hd'')])] =
      create_text_slide studio (title ''coffee barista working'') (15 / 2) default_size default_fontsize
        default_color default_bg_color
   \<and> (\<exists>img. footage_clip keyed_generator studio (15 / 2) 1 ''coffee barista working''
       [VideoEntry None, VideoEntry (Some [Variant (Some ''hd'') (Some ''v2-hd'')])] =
         Inr (ImageClip img (15 / 2)))"
    by blast
  with s later show ?thesis
    by blast
qed

text \<open>
  Claim C7. For a non-empty list of file variants, the variant chosen is the first one
  whose quality is \<open>hd\<close> when there is one, and the first of the list otherwise.
\<close>

theorem hd_video_selection:
  assumes "fs \<noteq> []"
  shows "\<exists>v. hd_video fs = Inr v
     \<and> (if \<exists>x \<in> set fs. quality x = Some ''hd''
        then \<exists>k < length fs. v = fs ! k \<and> quality (fs ! k) = Some ''hd''
               \<and> (\<forall>j < k. quality (fs ! j) \<noteq> Some ''hd'')
        else v = fs ! 0)"
proof (cases "find (\<lambda>v. quality v = Some ''hd'') fs")
  case None
  then have "\<not> (\<exists>x \<in> set fs. quality x = Some ''hd'')"
    by (simp add: find_None_iff)
  moreover have "hd_video fs = Inr (fs ! 0)"
    using assms None by (cases fs) (simp_all add: hd_video_def)
  ultimately show ?thesis by simp
next
  case (Some v)
  then obtain k where k: "k < length fs" "quality (fs ! k) = Some ''hd''" "v = fs ! k"
    "\<forall>j < k. quality (fs ! j) \<noteq> Some ''hd''"
    by (auto simp: find_Some_iff)
  have "\<exists>x \<in> set fs. quality x = Some ''hd''"
    using k(1,2) nth_mem by blast
  moreover have "hd_video fs = Inr v"
    using assms Some by (cases fs) (simp_all add: hd_video_def)
  ultimately show ?thesis
    using k by auto
qed

theorem hd_video_selection_witness:
  "hd_video [Variant (Some ''sd'') (Some ''a''), Variant (Some ''hd'') (Some ''b''),
             Variant (Some ''hd'') (Some ''c'')] = Inr (Variant (Some ''hd'') (Some ''b''))
   \<and> hd_video [Variant (Some ''sd'') (Some ''a''), Variant None (Some ''b'')]
       = Inr (Variant (Some ''sd'') (Some ''a''))"
proof -
  have "[Variant (Some ''sd'') (Some ''a''), Variant (Some ''hd'') (Some ''b''),
             Variant (Some ''hd'') (Some ''c'')] \<noteq> []"
    and "[Variant (Some ''sd'') (Some ''a''), Variant None (Some ''b'')] \<noteq> []"
    by simp_all
  from hd_video_selection [OF this(1)] hd_video_selection [OF this(2)]
  show ?thesis
    by (auto simp: less_Suc_eq nth_Cons')
qed

section \<open>Mode selection\<close>

lemma generate_video_pipeline:
  "generate_video g w script use_pexels =
     pipeline_with (if use_pexels \<and> truthy (pexels_api_key g)
                    then create_video_with_pexels else create_video_without_pexels) g w script"
  by (simp add: generate_video_def pipeline_with_def Let_def split: sum.splits)

lemma main_pipeline:
  "main w script answer =
     (if strip answer = []
      then pipeline_with create_video_without_pexels fresh_generator w script
      else pipeline_with create_video_with_pexels
             (set_pexels_api_key fresh_generator (strip answer)) w script)"
  by (simp add: main_def Let_def generate_video_pipeline fresh_generator_def
      set_pexels_api_key_def truthy_def)

lemma studio_audio: "generate_audio fresh_generator studio script = Inr ''beanflow_output/audio.mp3''"
  by (simp add: generate_audio_def fresh_generator_def studio_def)

lemma studio_audio_file: "audio_file studio path = Some 60"
  by (simp add: studio_def)

lemma studio_write: "write_videofile studio v path"
  by (simp add: studio_def)

lemma fresh_search: "search_pexels_videos fresh_generator w query n = []"
  by (simp add: search_pexels_videos_def fresh_generator_def)

lemma studio_slide_run:
  "map_sum id (length \<circ> clips \<circ> snd)
     (pipeline_with create_video_without_pexels fresh_generator studio ''pitch'') = Inr 12"
proof -
  obtain v where v: "create_video_without_pexels fresh_generator studio ''beanflow_output/audio.mp3'' ''pitch'' = Inr v"
    "map clip_duration (clips v) = map (\<lambda>(text, d). real_of_int d * (60 / 75)) scenes"
    using slide_video [of studio "''beanflow_output/audio.mp3''" 60 fresh_generator "''pitch''",
        OF studio_audio_file]
    by blast
  have "length (map clip_duration (clips v)) = length scenes"
    by (simp only: v(2) length_map)
  then have "length (clips v) = 12"
    by (simp add: length_scenes)
  then show ?thesis
    by (simp add: pipeline_with_def studio_audio v(1) studio_write)
qed

lemma studio_footage_run:
  "map_sum id (length \<circ> clips \<circ> snd)
     (pipeline_with create_video_with_pexels fresh_generator studio ''pitch'') = Inr 8"
proof -
  have l: "list_all (\<lambda>(i, query). falls_back fresh_generator studio i
                  (search_pexels_videos fresh_generator studio query 3)) (enumerate 0 queries)"
    by (simp add: fresh_search falls_back_def queries_def)
  from footage_clips_all_fall_back [OF l, of "15 / 2"] obtain cs where
    cs: "footage_clips fresh_generator studio (15 / 2) (enumerate 0 queries) = Inr cs"
     "map Inr cs = map (\<lambda>(i, query). create_text_slide studio (title query) (15 / 2) default_size
                            default_fontsize default_color default_bg_color) (enumerate 0 queries)"
    by blast
  have "length (map Inr cs :: (error + clip) list) = length (enumerate 0 queries)"
    by (simp only: cs(2) length_map)
  then have len: "length cs = 8"
    by (simp add: length_queries)
  have "create_video_with_pexels fresh_generator studio ''beanflow_output/audio.mp3'' ''pitch''
      = Inr \<lparr>clips = cs, audio = (''beanflow_output/audio.mp3'', 60)\<rparr>"
    using footage_video [of studio "''beanflow_output/audio.mp3''" 60 fresh_generator "''pitch''",
        OF studio_audio_file]
    by (simp add: cs(1))
  then show ?thesis
    by (simp add: pipeline_with_def studio_audio studio_write len)
qed

text \<open>
  Claim C5, as stated: the flag alone selects the mode, footage mode when it is enabled.
  It fails for a generator without an API key: with the flag enabled, \<open>generate_video\<close>
  runs the slide-only composer (twelve clips), not the footage composer (eight clips).
\<close>

theorem generate_video_flag_counterexample:
  "generate_video fresh_generator studio ''pitch'' True
     = pipeline_with create_video_without_pexels fresh_generator studio ''pitch''
   \<and> generate_video fresh_generator studio ''pitch'' True
     \<noteq> pipeline_with create_video_with_pexels fresh_generator studio ''pitch''
   \<and> map_sum id (length \<circ> clips \<circ> snd) (generate_video fresh_generator studio ''pitch'' True) = Inr 12
   \<and> map_sum id (length \<circ> clips \<circ> snd)
        (pipeline_with create_video_with_pexels fresh_generator studio ''pitch'') = Inr 8"
proof -
  have e: "generate_video fresh_generator studio ''pitch'' True
     = pipeline_with create_video_without_pexels fresh_generator studio ''pitch''"
    by (simp add: generate_video_pipeline fresh_generator_def truthy_def)
  have "pipeline_with create_video_without_pexels fresh_generator studio ''pitch''
     \<noteq> pipeline_with create_video_with_pexels fresh_generator studio ''pitch''"
    using studio_slide_run studio_footage_run by auto
  then show ?thesis
    using e studio_slide_run studio_footage_run by simp
qed

text \<open>
  Claim C5, amended. \<open>generate_video\<close> runs the footage composer when the flag is enabled
  and a non-empty API key is set, and the slide-only composer otherwise. \<open>main\<close> enables
  the flag exactly when the credential typed in is non-empty after stripping, and sets it
  as the key: an omitted credential runs slide-only mode, a supplied one footage mode.
\<close>

theorem generate_video_mode:
  "generate_video g w script use_pexels =
     pipeline_with (if use_pexels \<and> truthy (pexels_api_key g)
                    then create_video_with_pexels else create_video_without_pexels) g w script
   \<and> main w script answer =
     (if strip answer = []
      then pipeline_with create_video_without_pexels fresh_generator w script
      else pipeline_with create_video_with_pexels
             (set_pexels_api_key fresh_generator (strip answer)) w script)"
  using generate_video_pipeline main_pipeline by simp

theorem generate_video_mode_witness:
  "generate_video keyed_generator studio ''pitch'' True
     = pipeline_with create_video_with_pexels keyed_generator studio ''pitch''
   \<and> generate_video keyed_generator studio ''pitch'' False
     = pipeline_with create_video_without_pexels keyed_generator studio ''pitch''
   \<and> main studio ''pitch'' ''  ''
     = pipeline_with create_video_without_pexels fresh_generator studio ''pitch''
   \<and> main studio ''pitch'' '' secret ''
     = pipeline_with create_video_with_pexels keyed_generator studio ''pitch''"
proof -
  have t: "truthy (pexels_api_key keyed_generator)"
    by (simp add: keyed_generator_def fresh_generator_def set_pexels_api_key_def truthy_def)
  have s1: "strip ''  '' = []" and s2: "strip '' secret '' = ''secret''"
    by code_simp+
  from generate_video_mode [of keyed_generator studio "''pitch''" True "''  ''"]
       generate_video_mode [of keyed_generator studio "''pitch''" False "'' secret ''"]
  show ?thesis
    by (simp add: t s1 s2 keyed_generator_def [symmetric])
qed


section \<open>Stock footage client failures\<close>

text \<open>
  Claim C6. \<open>search_pexels_videos\<close> returns the empty list when no API key is configured
  and when the request fails (no reply, an error status, a body that is not a JSON
  object); \<open>download_video\<close> returns \<open>None\<close> exactly when the request fails (no reply, an
  error status) or the file cannot be written, and the path \<open>output_dir / filename\<close>
  otherwise. Neither has an exceptional outcome: every failure of the calls inside their
  \<open>try\<close> blocks is one of the cases above.
\<close>

theorem provider_failures_non_fatal:
  "(\<not> truthy (pexels_api_key g) \<longrightarrow> search_pexels_videos g w query per_page = [])
   \<and> (pexels_api_key g = Some key
        \<and> (search_get w key query per_page = NoReply
            \<or> (\<exists>code body. search_get w key query per_page = Reply code body
                   \<and> (raise_for_status code \<or> body = NotJson \<or> body = NotAnObject))) \<longrightarrow>
        search_pexels_videos g w query per_page = [])
   \<and> download_video g w url filename =
        (if download_get w url = NoReply
            \<or> (\<exists>code chunks. download_get w url = Reply code chunks
                   \<and> (raise_for_status code
                       \<or> \<not> write_file w (output_dir g @ ''/'' @ filename) chunks))
         then None
         else Some (output_dir g @ ''/'' @ filename))"
proof (intro conjI impI)
  assume "\<not> truthy (pexels_api_key g)"
  then show "search_pexels_videos g w query per_page = []"
    by (auto simp: truthy_def search_pexels_videos_def split: option.splits)
next
  assume "pexels_api_key g = Some key
        \<and> (search_get w key query per_page = NoReply
            \<or> (\<exists>code body. search_get w key query per_page = Reply code body
                   \<and> (raise_for_status code \<or> body = NotJson \<or> body = NotAnObject)))"
  then show "search_pexels_videos g w query per_page = []"
    by (auto simp: search_pexels_videos_def)
next
  show "download_video g w url filename =
        (if download_get w url = NoReply
            \<or> (\<exists>code chunks. download_get w url = Reply code chunks
                   \<and> (raise_for_status code
                       \<or> \<not> write_file w (output_dir g @ ''/'' @ filename) chunks))
         then None
         else Some (output_dir g @ ''/'' @ filename))"
    by (cases "download_get w url") (simp_all add: download_video_def Let_def)
qed

theorem provider_failures_non_fatal_witness:
  "\<not> truthy (pexels_api_key fresh_generator)
   \<and> search_pexels_videos fresh_generator studio ''coffee shop busy'' 3 = []
   \<and> search_get studio ''secret'' ''business success'' 3 = NoReply
   \<and> search_pexels_videos keyed_generator studio ''business success'' 3 = []
   \<and> search_get studio ''secret'' ''artificial intelligence'' 3 = Reply 500 NotJson
   \<and> search_pexels_videos keyed_generator studio ''artificial intelligence'' 3 = []
   \<and> download_get studio ''v3'' = Reply 404 []
   \<and> download_video keyed_generator studio ''v3'' ''clip_2.mp4'' = None
   \<and> download_get studio ''v9'' = NoReply
   \<and> download_video keyed_generator studio ''v9'' ''clip_5.mp4'' = None
   \<and> download_get studio ''v1-hd'' = Reply 200 [''data'']
   \<and> download_video keyed_generator studio ''v1-hd'' ''clip_0.mp4'' = Some ''beanflow_output/clip_0.mp4''"
proof -
  have k: "pexels_api_key keyed_generator = Some ''secret''"
    and o: "output_dir keyed_generator = ''beanflow_output''"
    and f: "\<not> truthy (pexels_api_key fresh_generator)"
    by (simp_all add: keyed_generator_def fresh_generator_def set_pexels_api_key_def truthy_def)
  have s1: "search_get studio ''secret'' ''business success'' 3 = NoReply"
    and s2: "search_get studio ''secret'' ''artificial intelligence'' 3 = Reply 500 NotJson"
    and d1: "download_get studio ''v3'' = Reply 404 []"
    and d2: "download_get studio ''v9'' = NoReply"
    and d3: "download_get studio ''v1-hd'' = Reply 200 [''data'']"
    and wr: "write_file studio path chunks" for path chunks
    by (simp_all add: studio_def)
  from provider_failures_non_fatal [of fresh_generator studio "''coffee shop busy''" 3
         "''secret''" "''v3''" "''clip_2.mp4''"]
       provider_failures_non_fatal [of keyed_generator studio "''business success''" 3
         "''secret''" "''v3''" "''clip_2.mp4''"]
       provider_failures_non_fatal [of keyed_generator studio "''artificial intelligence''" 3
         "''secret''" "''v9''" "''clip_5.mp4''"]
       provider_failures_non_fatal [of keyed_generator studio "''artificial intelligence''" 3
         "''secret''" "''v1-hd''" "''clip_0.mp4''"]
  show ?thesis
    by (simp add: k o f s1 s2 d1 d2 d3 wr raise_for_status_def)
qed

section \<open>Slide layout\<close>

text \<open>
  Claim C9. When neither system font loads, the font is the built-in one and the font
  size in force is 20; on the default canvas \<open>create_text_slide\<close> then returns a slide,
  for every text, duration, requested font size and colours, drawn in the built-in font
  with the layout of size 20 (143 characters per line, line height 30).
\<close>

theorem font_fallback:
  assumes "\<not> truetype w helvetica fontsize" "\<not> truetype w arial fontsize"
  shows "resolve_font w fontsize = (DefaultFont, 20)
     \<and> (\<exists>img. create_text_slide w t duration default_size fontsize color bg_color =
                 Inr (ImageClip img duration)
           \<and> typeface img = DefaultFont
           \<and> texts img =
               draw_lines w DefaultFont 1920 30
                 ((1080 - int (length (concat (map (paragraph_lines w 143) (split_on newline t)))) * 30) div 2)
                 (concat (map (paragraph_lines w 143) (split_on newline t))))"
proof -
  have r: "resolve_font w fontsize = (DefaultFont, 20)"
    using assms by (simp add: resolve_font_def)
  have h: "py_int (real_of_int 20 * 1.5) = 30"
    by (simp add: py_int_def)
  have "(0::int) < 20" "3 * 20 \<le> 5 * (fst default_size - 200)"
    by (simp_all add: default_size_def)
  from create_text_slide_Inr [OF r this, of t duration color bg_color]
  show ?thesis
    using r h by (simp add: default_size_def)
qed

theorem font_fallback_witness:
  "\<not> truetype studio helvetica 60 \<and> \<not> truetype studio arial 60
   \<and> resolve_font studio 60 = (DefaultFont, 20)
   \<and> create_text_slide studio ''Hi'' 1 default_size 60 default_color default_bg_color =
       Inr (ImageClip
             \<lparr>canvas = (1920, 1080), background = (30, 30, 30), ink = (255, 255, 255),
              typeface = DefaultFont, texts = [((948, 525), ''Hi'')]\<rparr> 1)"
proof -
  have a: "\<not> truetype studio helvetica 60" and b: "\<not> truetype studio arial 60"
    by (simp_all add: studio_def)
  have p: "paragraph_lines studio 143 ''Hi'' = [''Hi'']"
    by (simp add: paragraph_lines_def studio_def strip_def isspace_def newline_def)
  have c: "create_text_slide studio ''Hi'' 1 default_size 60 default_color default_bg_color =
       Inr (ImageClip
             \<lparr>canvas = (1920, 1080), background = (30, 30, 30), ink = (255, 255, 255),
              typeface = DefaultFont, texts = [((948, 525), ''Hi'')]\<rparr> 1)"
    using create_text_slide_Inr [of studio 60 DefaultFont 20 default_size "''Hi''" 1
        default_color default_bg_color]
    by (simp add: resolve_font_def studio_def default_size_def default_color_def
        default_bg_color_def py_int_def newline_def strip_def isspace_def paragraph_lines_def)
  from font_fallback [OF a b, of "''Hi''" 1 default_color default_bg_color]
  show ?thesis
    using a b c by simp
qed


lemma paragraph_lines_bounded:
  assumes "\<forall>p n. 0 < n \<longrightarrow> (\<forall>l \<in> set (split_on newline (textwrap_fill w p n)). int (length l) \<le> n)"
    and "0 < n" and "l \<in> set (paragraph_lines w n p)"
  shows "int (length l) \<le> n"
  using assms by (auto simp: paragraph_lines_def split: if_splits)

text \<open>
  Claim C8, amended. With \<open>fs\<close> the font size in force after font resolution, positive
  and small enough for one character per line, \<open>create_text_slide\<close> returns a slide for
  every text. The text is split at newlines; each paragraph with a non-blank character
  is wrapped by \<open>textwrap.fill\<close> to the width \<open>floor((width - 200) / (fs * 0.6))\<close>, any other
  paragraph gives one empty line; the line height is \<open>int(fs * 1.5)\<close>, that is \<open>3 * fs\<close>
  divided by 2 and rounded down; the first line is drawn at \<open>(height - n * line_height) // 2\<close>
  for \<open>n\<close> lines and line \<open>k\<close> at \<open>k\<close> line heights below; each line is drawn at
  \<open>(width - measured width) // 2\<close>. If \<open>textwrap.fill\<close> keeps its contract (no line longer
  than the width asked for), no line of the slide is longer than the wrap width.
\<close>

theorem create_text_slide_layout:
  assumes "resolve_font w fontsize = (fnt, fs)" "0 < fs" "3 * fs \<le> 5 * (width - 200)"
  shows "\<exists>img. create_text_slide w t duration (width, height) fontsize color bg_color =
                 Inr (ImageClip img duration)
     \<and> (let chars_per_line = \<lfloor>real_of_int (width - 200) / (real_of_int fs * 0.6)\<rfloor>;
             lines = concat (map (paragraph_lines w chars_per_line) (split_on newline t));
             line_height = py_int (real_of_int fs * 1.5);
             top = (height - int (length lines) * line_height) div 2
         in 0 < chars_per_line
          \<and> line_height = (3 * fs) div 2
          \<and> canvas img = (width, height)
          \<and> typeface img = fnt
          \<and> map snd (texts img) = lines
          \<and> map fst (texts img) =
               map (\<lambda>(k, line). ((width - bbox_width w fnt line) div 2, top + int k * line_height))
                 (enumerate 0 lines)
          \<and> ((\<forall>p n. 0 < n \<longrightarrow>
                 (\<forall>l \<in> set (split_on newline (textwrap_fill w p n)). int (length l) \<le> n))
               \<longrightarrow> (\<forall>l \<in> set lines. int (length l) \<le> chars_per_line)))"
proof -
  let ?c = "\<lfloor>real_of_int (width - 200) / (real_of_int fs * 0.6)\<rfloor>"
  let ?lines = "concat (map (paragraph_lines w ?c) (split_on newline t))"
  let ?lh = "py_int (real_of_int fs * 1.5)"
  let ?top = "(height - int (length ?lines) * ?lh) div 2"
  let ?img = "\<lparr>canvas = (width, height), background = bg_color, ink = color,
     typeface = fnt, texts = draw_lines w fnt width ?lh ?top ?lines\<rparr>"
  have mw: "0 \<le> width - 200"
    using assms(2,3) by presburger
  have fl: "(5 * (width - 200)) div (3 * fs) = ?c"
    by (rule chars_per_line_floor [OF assms(2) mw, symmetric])
  have c1: "0 < ?c"
    using chars_per_line_pos [OF assms(2,3)] by (simp only: fl)
  have "real_of_int fs * 1.5 = real_of_int (3 * fs) / real_of_int 2"
    by simp
  then have "\<lfloor>real_of_int fs * 1.5\<rfloor> = (3 * fs) div 2"
    by (simp only: floor_divide_of_int_eq)
  moreover have "0 \<le> real_of_int fs * 1.5"
    using assms(2) by simp
  ultimately have c2: "?lh = (3 * fs) div 2"
    by (simp add: py_int_def)
  have a3: "3 * fs \<le> 5 * (fst (width, height) - 200)"
    using assms(3) by simp
  have r: "create_text_slide w t duration (width, height) fontsize color bg_color =
             Inr (ImageClip ?img duration)"
    using create_text_slide_Inr [OF assms(1,2) a3, of t duration color bg_color]
    by (simp only: fst_conv snd_conv fl)
  have c3: "canvas ?img = (width, height)" and c4: "typeface ?img = fnt"
    by simp_all
  have c5: "map snd (texts ?img) = ?lines"
    by (simp add: draw_lines_text)
  have c6: "map fst (texts ?img) =
               map (\<lambda>(k, line). ((width - bbox_width w fnt line) div 2, ?top + int k * ?lh))
                 (enumerate 0 ?lines)"
    by (simp add: draw_lines_pos)
  have c7: "(\<forall>p n. 0 < n \<longrightarrow>
                 (\<forall>l \<in> set (split_on newline (textwrap_fill w p n)). int (length l) \<le> n))
               \<longrightarrow> (\<forall>l \<in> set ?lines. int (length l) \<le> ?c)"
    using paragraph_lines_bounded [OF _ c1] by auto
  show ?thesis
    unfolding Let_def
    by (intro exI [of _ ?img] conjI) (rule r c1 c2 c3 c4 c5 c6 c7)+
qed

text \<open>A slide of two lines at font size 61, on a machine where the first font loads.\<close>

lemma mac_font: "resolve_font mac 61 = (TrueType helvetica 61, 61)"
  by (simp add: resolve_font_def mac_def)

lemma mac_lines:
  "concat (map (paragraph_lines mac 46) (split_on newline ''a\<newline>b'')) = [''a'', ''b'']"
  by (simp add: paragraph_lines_def mac_def studio_def newline_def strip_def isspace_def)

lemma mac_bbox: "textbbox mac fnt line = (0, 0, 12 * int (length line), 20)"
  by (simp add: mac_def studio_def)

lemma mac_two_lines:
  "create_text_slide mac ''a\<newline>b'' 1 (1920, 1080) 61 default_color default_bg_color =
     Inr (ImageClip
           \<lparr>canvas = (1920, 1080), background = (30, 30, 30), ink = (255, 255, 255),
            typeface = TrueType helvetica 61,
            texts = [((954, 449), ''a''), ((954, 540), ''b'')]\<rparr> 1)"
proof -
  have h: "py_int (real_of_int 61 * 1.5) = 91"
    by (simp add: py_int_def)
  have c: "(5 * (fst (1920, 1080) - 200)) div (3 * 61) = (46::int)"
    by simp
  have "(0::int) < 61" "(3::int) * 61 \<le> 5 * (fst (1920, 1080) - 200)"
    by simp_all
  from create_text_slide_Inr [OF mac_font this, of "''a\<newline>b''" 1 default_color default_bg_color]
  show ?thesis
    by (simp only: c mac_lines h) (simp add: mac_bbox default_color_def default_bg_color_def)
qed


text \<open>
  Claim C8, as stated: the line height is \<open>fontsize * 1.5\<close>. It fails for an odd font size:
  at size 61 the two lines are drawn 91 pixels apart (\<open>int(91.5)\<close>), not 91.5.
\<close>

theorem create_text_slide_line_height_counterexample:
  "create_text_slide mac ''a\<newline>b'' 1 (1920, 1080) 61 default_color default_bg_color =
     Inr (ImageClip
           \<lparr>canvas = (1920, 1080), background = (30, 30, 30), ink = (255, 255, 255),
            typeface = TrueType helvetica 61,
            texts = [((954, 449), ''a''), ((954, 540), ''b'')]\<rparr> 1)
   \<and> real_of_int (540 - 449) \<noteq> real_of_int 61 * 1.5"
  using mac_two_lines by simp

lemma split_on_no_separator: "sep \<notin> set s \<Longrightarrow> split_on sep s = [s]"
  by (induction s) auto

lemma mac_fill_contract:
  "\<forall>p n. 0 < n \<longrightarrow>
     (\<forall>l \<in> set (split_on newline (textwrap_fill mac p n)). int (length l) \<le> n)"
proof (intro allI impI ballI)
  fix p :: string and n :: int and l
  assume n: "0 < n" and l: "l \<in> set (split_on newline (textwrap_fill mac p n))"
  have "newline \<notin> set (take (nat n) (filter (\<lambda>c. c \<noteq> newline) p))"
    by (auto dest: in_set_takeD)
  from split_on_no_separator [OF this] l
  have "l = take (nat n) (filter (\<lambda>c. c \<noteq> newline) p)"
    by (simp add: mac_def studio_def)
  then show "int (length l) \<le> n"
    using n by simp
qed

theorem create_text_slide_layout_witness:
  "resolve_font mac 61 = (TrueType helvetica 61, 61)
   \<and> (0::int) < 61 \<and> (3::int) * 61 \<le> 5 * (1920 - 200)
   \<and> (\<exists>img. create_text_slide mac ''a\<newline>b'' 1 (1920, 1080) 61 default_color default_bg_color =
               Inr (ImageClip img 1)
         \<and> map snd (texts img) = [''a'', ''b'']
         \<and> map fst (texts img) = [(954, 449), (954, 540)]
         \<and> list_all (\<lambda>l. int (length l) \<le> 46) (map snd (texts img)))"
proof -
  have p: "(0::int) < 61" and q: "(3::int) * 61 \<le> 5 * (1920 - 200)"
    by simp_all
  have fl: "\<lfloor>real_of_int (1920 - 200) / (real_of_int 61 * 0.6)\<rfloor> = (46::int)"
    using chars_per_line_floor [of 61 "1920 - 200"] by simp
  from create_text_slide_layout [OF mac_font p q, of "''a\<newline>b''" 1 1080
      default_color default_bg_color]
  obtain img where
    i: "create_text_slide mac ''a\<newline>b'' 1 (1920, 1080) 61 default_color default_bg_color =
               Inr (ImageClip img 1)"
    and b: "(\<forall>p n. 0 < n \<longrightarrow>
                 (\<forall>l \<in> set (split_on newline (textwrap_fill mac p n)). int (length l) \<le> n))
               \<longrightarrow> (\<forall>l \<in> set (concat (map (paragraph_lines mac 46) (split_on newline ''a\<newline>b''))).
                      int (length l) \<le> 46)"
    unfolding Let_def fl by blast
  from b mac_fill_contract
  have "\<forall>l \<in> set (concat (map (paragraph_lines mac 46) (split_on newline ''a\<newline>b''))).
          int (length l) \<le> 46"
    by blast
  then have bound: "list_all (\<lambda>l. int (length l) \<le> 46) [''a'', ''b'']"
    by (simp only: mac_lines list_all_iff)
  have img: "img = \<lparr>canvas = (1920, 1080), background = (30, 30, 30), ink = (255, 255, 255),
            typeface = TrueType helvetica 61,
            texts = [((954, 449), ''a''), ((954, 540), ''b'')]\<rparr>"
    using i mac_two_lines by simp
  have "map snd (texts img) = [''a'', ''b'']" "map fst (texts img) = [(954, 449), (954, 540)]"
    by (simp_all add: img)
  with i bound mac_font p q show ?thesis
    by (intro conjI exI [of _ img]) simp_all
qed

end
